theory Spec2Isabelle
  imports Complex_Main
begin

section \<open>Python values\<close>

text \<open>
  A Python \<^verbatim>\<open>str\<close> is a sequence of Unicode code points; a code point is a natural
  number. \<open>u\<close> turns an ASCII literal into such a sequence.
\<close>

type_synonym ustring = "nat list"

definition u :: "string \<Rightarrow> ustring" where
  "u s = map of_char s"

text \<open>
  What \<^verbatim>\<open>r.json()\<close> returns. A float is the rational it denotes, or one of the
  three non-finite values that Python's decoder also accepts. A dict is an association
  list, read with \<open>map_of\<close>.
\<close>

datatype pyfloat = Finite rat | PosInf | NegInf | NaN

datatype json =
    JNull
  | JBool bool
  | JInt int
  | JFloat pyfloat
  | JStr ustring
  | JArr "json list"
  | JObj "(ustring \<times> json) list"

text \<open>Python's truth value of an object, as \<^verbatim>\<open>or\<close>, \<^verbatim>\<open>and\<close>, \<^verbatim>\<open>not\<close> and \<^verbatim>\<open>if\<close> test it.\<close>

fun truthy :: "json \<Rightarrow> bool" where
  "truthy JNull = False"
| "truthy (JBool b) = b"
| "truthy (JInt i) = (i \<noteq> 0)"
| "truthy (JFloat f) = (f \<noteq> Finite 0)"
| "truthy (JStr s) = (s \<noteq> [])"
| "truthy (JArr xs) = (xs \<noteq> [])"
| "truthy (JObj kvs) = (kvs \<noteq> [])"

text \<open>\<^verbatim>\<open>a or b\<close>: the value of \<open>a\<close> when it is truthy, the value of \<open>b\<close> otherwise.\<close>

definition py_or :: "json \<Rightarrow> json \<Rightarrow> json" where
  "py_or a b = (if truthy a then a else b)"

text \<open>\<^verbatim>\<open>d.get(k)\<close>: the value stored under \<open>k\<close>, \<^verbatim>\<open>None\<close> when there is none.\<close>

definition dict_get :: "(ustring \<times> json) list \<Rightarrow> ustring \<Rightarrow> json" where
  "dict_get d k = (case map_of d k of None \<Rightarrow> JNull | Some v \<Rightarrow> v)"

text \<open>The exceptions that the script can end with.\<close>

datatype exn =
    KeyError
  | HTTPError nat
  | ConnectionError
  | JSONDecodeError
  | AttributeError
  | TypeError
  | ValueError
  | UnicodeEncodeError
  | DatabaseError

text \<open>
  \<^verbatim>\<open>for t in data\<close>: a list yields its items, a dict its keys, a string its
  characters; nothing else can be iterated.
\<close>

fun py_iter :: "json \<Rightarrow> exn + json list" where
  "py_iter (JArr xs) = Inr xs"
| "py_iter (JObj kvs) = Inr (map (\<lambda>kv. JStr (fst kv)) kvs)"
| "py_iter (JStr s) = Inr (map (\<lambda>c. JStr [c]) s)"
| "py_iter _ = Inl TypeError"

text \<open>\<^verbatim>\<open>str(n)\<close> of an integer, as an f-string renders it.\<close>

function digits :: "nat \<Rightarrow> ustring" where
  "digits n = (if n < 10 then [48 + n] else digits (n div 10) @ [48 + n mod 10])"
  by pat_completeness auto
termination
  by (relation "measure id") auto

definition str_int :: "int \<Rightarrow> ustring" where
  "str_int i = (if i < 0 then 45 # digits (nat (- i)) else digits (nat i))"

text \<open>
  The library functions on strings that the script calls: \<^verbatim>\<open>str.lower\<close>,
  \<^verbatim>\<open>str.upper\<close>, \<^verbatim>\<open>unicodedata.normalize("NFKD", _)\<close> and
  \<^verbatim>\<open>unicodedata.combining\<close>. They read the Unicode character database, which is
  not part of the script, so they are parameters of the model.
\<close>

record pylib =
  str_lower :: "ustring \<Rightarrow> ustring"
  str_upper :: "ustring \<Rightarrow> ustring"
  normalize_nfkd :: "ustring \<Rightarrow> ustring"
  combining :: "nat \<Rightarrow> nat"

section \<open>Season Resolver\<close>

record date =
  year :: int
  month :: nat
  day :: nat

text \<open>
  \<^verbatim>\<open>infer_current_season(today=None)\<close>; \<open>today_et\<close> is the date that
  \<^verbatim>\<open>datetime.now(tz=tz_et).date()\<close> gives.
\<close>

definition infer_current_season :: "date \<Rightarrow> date option \<Rightarrow> ustring" where
  "infer_current_season today_et today =
     (let today = (case today of None \<Rightarrow> today_et | Some d \<Rightarrow> d);
          y = year today;
          start_year = (if month today < 7 then y - 1 else y)
      in str_int start_year @ str_int (start_year + 1))"

section \<open>Identifier Resolver: the slug\<close>

definition underscore :: nat where
  "underscore = 95"

text \<open>The character class \<^verbatim>\<open>[a-z0-9]\<close>.\<close>

definition is_az09 :: "nat \<Rightarrow> bool" where
  "is_az09 c = ((97 \<le> c \<and> c \<le> 122) \<or> (48 \<le> c \<and> c \<le> 57))"

text \<open>
  \<^verbatim>\<open>re.sub(r"[^a-z0-9]+", "_", s)\<close>, as the regex engine scans: a character of the
  class is copied; at any other character the longest run of characters outside the
  class is consumed and one underscore is written.
\<close>

function re_sub :: "ustring \<Rightarrow> ustring" where
  "re_sub [] = []"
| "re_sub (c # cs) =
     (if is_az09 c then c # re_sub cs
      else underscore # re_sub (dropWhile (\<lambda>d. \<not> is_az09 d) cs))"
  by pat_completeness auto
termination
  by (relation "measure length") (auto simp: less_Suc_eq_le length_dropWhile_le)

text \<open>\<^verbatim>\<open>.strip("_")\<close>: underscores are dropped from the left end, then from the right end.\<close>

primrec rstrip_us :: "ustring \<Rightarrow> ustring" where
  "rstrip_us [] = []"
| "rstrip_us (c # cs) =
     (let r = rstrip_us cs in if r = [] \<and> c = underscore then [] else c # r)"

definition strip_us :: "ustring \<Rightarrow> ustring" where
  "strip_us s = rstrip_us (dropWhile (\<lambda>c. c = underscore) s)"

definition slug_from_name :: "pylib \<Rightarrow> ustring \<Rightarrow> ustring" where
  "slug_from_name lib nm =
     (let s = normalize_nfkd lib nm;
          s = filter (\<lambda>c. combining lib c = 0) s;
          s = str_lower lib s;
          s = strip_us (re_sub s)
      in s)"

text \<open>The shape of a slug, as predicates that can be evaluated.\<close>

definition slug_char :: "nat \<Rightarrow> bool" where
  "slug_char c = (is_az09 c \<or> c = underscore)"

fun no_double_us :: "ustring \<Rightarrow> bool" where
  "no_double_us (c # d # cs) =
     (\<not> (c = underscore \<and> d = underscore) \<and> no_double_us (d # cs))"
| "no_double_us _ = True"

definition well_formed_slug :: "ustring \<Rightarrow> bool" where
  "well_formed_slug s =
     (list_all slug_char s \<and> no_double_us s \<and>
      (s \<noteq> [] \<longrightarrow> hd s \<noteq> underscore \<and> last s \<noteq> underscore))"

text \<open>
  What the Unicode character database says of the slug alphabet: a string of lower-case
  ASCII letters, digits and underscores is its own NFKD form and its own lower-case
  form, and none of its characters is a combining character.
\<close>

definition slug_stable :: "pylib \<Rightarrow> bool" where
  "slug_stable lib =
     (\<forall>s. list_all slug_char s \<longrightarrow>
        normalize_nfkd lib s = s \<and> str_lower lib s = s \<and>
        list_all (\<lambda>c. combining lib c = 0) s)"

text \<open>
  A fragment of the character database, enough for the names used as examples below:
  ASCII case mapping, the decomposition of U+00E9 into \<open>e\<close> and U+0301, and the
  combining class 230 of U+0301.
\<close>

definition latin_lib :: pylib where
  "latin_lib = \<lparr>
     str_lower = map (\<lambda>c. if 65 \<le> c \<and> c \<le> 90 then c + 32 else c),
     str_upper = map (\<lambda>c. if 97 \<le> c \<and> c \<le> 122 then c - 32 else c),
     normalize_nfkd = (\<lambda>s. concat (map (\<lambda>c. if c = 233 then [101, 769] else [c]) s)),
     combining = (\<lambda>c. if c = 769 then 230 else 0) \<rparr>"

text \<open>
  The slug in the words of the specification, its alphanumeric characters being those
  of the class \<^verbatim>\<open>[a-z0-9]\<close>: normalise, strip the marks, lower-case, replace every
  run of characters outside the class by one underscore (every such character becomes
  an underscore and adjacent underscores are merged), trim the underscores at both
  ends. A letter outside ASCII that survives the first three steps is outside the class.
\<close>

fun merge_us :: "ustring \<Rightarrow> ustring" where
  "merge_us (c # d # cs) =
     (if c = underscore \<and> d = underscore then merge_us (d # cs) else c # merge_us (d # cs))"
| "merge_us cs = cs"

definition replace_runs :: "ustring \<Rightarrow> ustring" where
  "replace_runs s = merge_us (map (\<lambda>c. if is_az09 c then c else underscore) s)"

definition trim_us :: "ustring \<Rightarrow> ustring" where
  "trim_us s = rev (dropWhile (\<lambda>c. c = underscore) (rev (dropWhile (\<lambda>c. c = underscore) s)))"

definition spec_slug :: "pylib \<Rightarrow> ustring \<Rightarrow> ustring" where
  "spec_slug lib nm =
     trim_us (replace_runs (str_lower lib
       (filter (\<lambda>c. combining lib c = 0) (normalize_nfkd lib nm))))"

section \<open>The outside world\<close>

text \<open>
  What the server does with a GET request: the request itself fails (no connection, a
  timeout), or a response arrives with a status code and a body that is a JSON value
  or is not.
\<close>

datatype reply = NoReply | Reply nat "json option"

subsection \<open>The table \<^verbatim>\<open>nhl_team_stats\<close>\<close>

text \<open>The dict \<^verbatim>\<open>out\<close> that the Team Stat Fetcher returns, one field per key.\<close>

record summary =
  gp :: json
  w :: json
  l :: json
  ties :: json
  ot :: json
  points :: json
  points_pct :: json
  rw :: json
  row :: json
  so_wins :: json
  gf :: json
  ga :: json
  gf_per_gp :: json
  ga_per_gp :: json
  pp_pct :: json
  pk_pct :: json
  net_pp_pct :: json
  net_pk_pct :: json
  shots_per_gp :: json
  sa_per_gp :: json
  fow_pct :: json

text \<open>The named parameters of \<^verbatim>\<open>UPSERT_SQL\<close>: the summary, the key and the source.\<close>

record params = summary +
  team_id :: ustring
  season :: ustring
  source :: ustring

text \<open>A row of the table: the columns that the statement names and \<^verbatim>\<open>ingested_at\<close>.\<close>

record stats_row = params +
  ingested_at :: int

definition pkey :: "'a params_scheme \<Rightarrow> ustring \<times> ustring" where
  "pkey r = (team_id r, season r)"

text \<open>
  Modelled from the spec: the default of the column \<^verbatim>\<open>ingested_at\<close>, which the
  \<^verbatim>\<open>INSERT\<close> leaves out and whose declaration is not in the script. The
  specification says that \<^verbatim>\<open>ingested_at\<close> always reflects the most recent write, so
  a new row is stamped with the current time.
\<close>

definition ingested_at_default :: "int \<Rightarrow> int" where
  "ingested_at_default tnow = tnow"

text \<open>The row that the \<^verbatim>\<open>INSERT\<close> proposes.\<close>

definition inserted_row :: "int \<Rightarrow> params \<Rightarrow> stats_row" where
  "inserted_row tnow e = \<lparr>
     gp = gp e, w = w e, l = l e, ties = ties e, ot = ot e,
     points = points e, points_pct = points_pct e,
     rw = rw e, row = row e, so_wins = so_wins e,
     gf = gf e, ga = ga e, gf_per_gp = gf_per_gp e, ga_per_gp = ga_per_gp e,
     pp_pct = pp_pct e, pk_pct = pk_pct e,
     net_pp_pct = net_pp_pct e, net_pk_pct = net_pk_pct e,
     shots_per_gp = shots_per_gp e, sa_per_gp = sa_per_gp e, fow_pct = fow_pct e,
     team_id = team_id e, season = season e, source = source e,
     ingested_at = ingested_at_default tnow \<rparr>"

text \<open>\<^verbatim>\<open>ON CONFLICT (team_id, season) DO UPDATE SET ...\<close> on the row in conflict.\<close>

definition conflict_update :: "int \<Rightarrow> params \<Rightarrow> stats_row \<Rightarrow> stats_row" where
  "conflict_update tnow e old = old \<lparr>
     gp := gp e, w := w e, l := l e, ties := ties e, ot := ot e,
     points := points e, points_pct := points_pct e,
     rw := rw e, row := row e, so_wins := so_wins e,
     gf := gf e, ga := ga e, gf_per_gp := gf_per_gp e, ga_per_gp := ga_per_gp e,
     pp_pct := pp_pct e, pk_pct := pk_pct e,
     net_pp_pct := net_pp_pct e, net_pk_pct := net_pk_pct e,
     shots_per_gp := shots_per_gp e, sa_per_gp := sa_per_gp e, fow_pct := fow_pct e,
     source := source e, ingested_at := tnow \<rparr>"

text \<open>
  \<^verbatim>\<open>UPSERT_SQL\<close> at time \<open>tnow\<close> on a table, a list of rows: the row whose key is
  in conflict is updated, and without a conflict the proposed row is inserted.
\<close>

fun upsert :: "int \<Rightarrow> params \<Rightarrow> stats_row list \<Rightarrow> stats_row list" where
  "upsert tnow e [] = [inserted_row tnow e]"
| "upsert tnow e (r # rs) =
     (if pkey r = pkey e then conflict_update tnow e r # rs else r # upsert tnow e rs)"

text \<open>The unique index on \<^verbatim>\<open>(team_id, season)\<close> that \<^verbatim>\<open>ON CONFLICT\<close> names.\<close>

definition unique_keys :: "stats_row list \<Rightarrow> bool" where
  "unique_keys tbl = distinct (map pkey tbl)"

definition rows_of :: "ustring \<times> ustring \<Rightarrow> stats_row list \<Rightarrow> stats_row list" where
  "rows_of k tbl = filter (\<lambda>r. pkey r = k) tbl"

text \<open>Every column but the key holds the value of the parameter of the same name.\<close>

definition holds_values :: "params \<Rightarrow> stats_row \<Rightarrow> bool" where
  "holds_values e r =
     (gp r = gp e \<and> w r = w e \<and> l r = l e \<and> ties r = ties e \<and> ot r = ot e \<and>
      points r = points e \<and> points_pct r = points_pct e \<and>
      rw r = rw e \<and> row r = row e \<and> so_wins r = so_wins e \<and>
      gf r = gf e \<and> ga r = ga e \<and> gf_per_gp r = gf_per_gp e \<and> ga_per_gp r = ga_per_gp e \<and>
      pp_pct r = pp_pct e \<and> pk_pct r = pk_pct e \<and>
      net_pp_pct r = net_pp_pct e \<and> net_pk_pct r = net_pk_pct e \<and>
      shots_per_gp r = shots_per_gp e \<and> sa_per_gp r = sa_per_gp e \<and> fow_pct r = fow_pct e \<and>
      source r = source e)"

subsection \<open>Environment and state\<close>

text \<open>
  What a run reads and cannot change: the process environment, the date in US Eastern
  time, the server (its answer to the \<open>n\<close>-th request of the run, for a URL), the
  string library, the reference table \<^verbatim>\<open>nhl_teams\<close> as pairs of \<^verbatim>\<open>team_id\<close> and
  \<^verbatim>\<open>team_name\<close>, the SQL functions \<^verbatim>\<open>unaccent\<close> and \<^verbatim>\<open>lower\<close>, whether the
  client encoding of the connection can encode a string, whether the server carries
  out the lookup for a name, whether the
  database accepts a connection, the \<^verbatim>\<open>CREATE EXTENSION\<close> statement and the values
  of a row (the column types are not in the script), and the time \<^verbatim>\<open>now()\<close> of the
  run's transaction.
\<close>

record env =
  environ :: "ustring \<rightharpoonup> ustring"
  today_et :: date
  http :: "nat \<Rightarrow> ustring \<Rightarrow> reply"
  lib :: pylib
  nhl_teams :: "(ustring \<times> ustring) list"
  sql_unaccent :: "ustring \<Rightarrow> ustring"
  sql_lower :: "ustring \<Rightarrow> ustring"
  client_encodes :: "ustring \<Rightarrow> bool"
  select_ok :: "ustring \<Rightarrow> bool"
  connect_ok :: "ustring \<Rightarrow> bool"
  extension_ok :: bool
  accepts :: "params \<Rightarrow> bool"
  now :: int

text \<open>
  What a run changes: the committed table, the table as the open transaction sees it,
  the requests sent so far, and the number of commits.
\<close>

record world =
  nhl_team_stats :: "stats_row list"
  pending :: "stats_row list"
  requests :: "ustring list"
  commits :: nat

section \<open>HTTP\<close>

text \<open>
  \<^verbatim>\<open>nhl_get(url)\<close>: \<^verbatim>\<open>raise_for_status\<close> raises \<^verbatim>\<open>HTTPError\<close> for a status from
  400 to 599, and \<^verbatim>\<open>r.json()\<close> raises when the body is not JSON.
\<close>

definition nhl_get :: "env \<Rightarrow> ustring \<Rightarrow> world \<Rightarrow> (exn + json) \<times> world" where
  "nhl_get ev url wd =
     (let wd' = wd \<lparr>requests := requests wd @ [url]\<rparr> in
      case http ev (length (requests wd)) url of
        NoReply \<Rightarrow> (Inl ConnectionError, wd')
      | Reply status body \<Rightarrow>
          if 400 \<le> status \<and> status < 600 then (Inl (HTTPError status), wd')
          else (case body of
                  None \<Rightarrow> (Inl JSONDecodeError, wd')
                | Some j \<Rightarrow> (Inr j, wd')))"

section \<open>Team Directory Fetcher\<close>

record team =
  code :: ustring
  name :: json

text \<open>
  The loop of \<^verbatim>\<open>fetch_active_teams\<close>, with the list \<^verbatim>\<open>teams\<close> as accumulator.
  \<^verbatim>\<open>t.get\<close> needs a dict and \<^verbatim>\<open>tri.lower()\<close> a string.
\<close>

fun teams_loop :: "pylib \<Rightarrow> json list \<Rightarrow> team list \<Rightarrow> exn + team list" where
  "teams_loop lb [] teams = Inr teams"
| "teams_loop lb (t # ts) teams =
     (case t of
        JObj d \<Rightarrow>
          (let tri = dict_get d (u ''triCode'');
               nm = py_or (py_or (dict_get d (u ''fullName'')) (dict_get d (u ''name'')))
                      (dict_get d (u ''teamName''))
           in if truthy tri \<and> truthy nm
              then (case tri of
                      JStr s \<Rightarrow> teams_loop lb ts (teams @ [\<lparr>code = str_lower lb s, name = nm\<rparr>])
                    | _ \<Rightarrow> Inl AttributeError)
              else teams_loop lb ts teams)
      | _ \<Rightarrow> Inl AttributeError)"

definition teams_url :: ustring where
  "teams_url = u ''https://api-web.nhle.com/v1/teams''"

definition fetch_active_teams :: "env \<Rightarrow> world \<Rightarrow> (exn + team list) \<times> world" where
  "fetch_active_teams ev wd =
     (case nhl_get ev teams_url wd of
        (Inl e, wd') \<Rightarrow> (Inl e, wd')
      | (Inr data, wd') \<Rightarrow>
          (case py_iter data of
             Inl e \<Rightarrow> (Inl e, wd')
           | Inr ts \<Rightarrow> (teams_loop (lib ev) ts [], wd')))"

section \<open>Team Stat Fetcher\<close>

text \<open>The dict literal \<^verbatim>\<open>out\<close> of \<^verbatim>\<open>fetch_team_season_summary\<close>.\<close>

definition summary_out :: "(ustring \<times> json) list \<Rightarrow> summary" where
  "summary_out d = \<lparr>
     gp = dict_get d (u ''gamesPlayed''),
     w = dict_get d (u ''wins''),
     l = dict_get d (u ''losses''),
     ties = JNull,
     ot = py_or (dict_get d (u ''otLosses'')) (dict_get d (u ''overtimeLosses'')),
     points = dict_get d (u ''points''),
     points_pct = dict_get d (u ''pointsPct''),
     rw = dict_get d (u ''regulationWins''),
     row = py_or (dict_get d (u ''regulationPlusOtWins'')) (dict_get d (u ''row'')),
     so_wins = dict_get d (u ''shootoutWins''),
     gf = dict_get d (u ''goalsFor''),
     ga = dict_get d (u ''goalsAgainst''),
     gf_per_gp = dict_get d (u ''goalsForPerGame''),
     ga_per_gp = dict_get d (u ''goalsAgainstPerGame''),
     pp_pct = dict_get d (u ''powerPlayPct''),
     pk_pct = dict_get d (u ''penaltyKillPct''),
     net_pp_pct = dict_get d (u ''netPowerPlayPct''),
     net_pk_pct = dict_get d (u ''netPenaltyKillPct''),
     shots_per_gp = dict_get d (u ''shotsForPerGame''),
     sa_per_gp = dict_get d (u ''shotsAgainstPerGame''),
     fow_pct = dict_get d (u ''faceoffWinPct'') \<rparr>"

definition stats_url :: "pylib \<Rightarrow> ustring \<Rightarrow> ustring \<Rightarrow> ustring" where
  "stats_url lb team_code sn =
     u ''https://api-web.nhle.com/v1/club-stats/'' @ str_upper lb team_code @ u ''/'' @ sn @ u ''/2''"

text \<open>
  \<^verbatim>\<open>fetch_team_season_summary\<close>: \<^verbatim>\<open>except requests.HTTPError\<close> turns every
  \<^verbatim>\<open>HTTPError\<close> into \<^verbatim>\<open>None\<close>; any other exception passes through; \<^verbatim>\<open>data.get\<close>
  needs a dict.
\<close>

definition fetch_team_season_summary ::
    "env \<Rightarrow> ustring \<Rightarrow> ustring \<Rightarrow> world \<Rightarrow> (exn + summary option) \<times> world" where
  "fetch_team_season_summary ev team_code sn wd =
     (case nhl_get ev (stats_url (lib ev) team_code sn) wd of
        (Inl (HTTPError status), wd') \<Rightarrow> (Inr None, wd')
      | (Inl e, wd') \<Rightarrow> (Inl e, wd')
      | (Inr data, wd') \<Rightarrow>
          (case data of
             JObj d \<Rightarrow> (Inr (Some (summary_out d)), wd')
           | _ \<Rightarrow> (Inl AttributeError, wd')))"

section \<open>Identifier Resolver\<close>

text \<open>The \<^verbatim>\<open>SELECT ... LIMIT 1\<close> of \<^verbatim>\<open>team_id_from_db_or_slug\<close>.\<close>

definition select_team :: "env \<Rightarrow> ustring \<Rightarrow> (ustring \<times> ustring) option" where
  "select_team ev team_name =
     find (\<lambda>r. sql_lower ev (sql_unaccent ev (snd r)) = sql_lower ev (sql_unaccent ev team_name))
       (nhl_teams ev)"

text \<open>
  \<^verbatim>\<open>team_id_from_db_or_slug(cur, team_name)\<close> for a string. \<^verbatim>\<open>cur.execute\<close> can
  raise: the driver encodes the parameter in the client encoding
  (\<^verbatim>\<open>UnicodeEncodeError\<close>, as for a lone surrogate in UTF-8), then refuses a string
  that holds the character NUL (\<^verbatim>\<open>ValueError\<close>), and the server may fail the query.
  The row that \<^verbatim>\<open>fetchone\<close> returns is a tuple of one item, which is truthy.
\<close>

definition team_id_from_db_or_slug :: "env \<Rightarrow> ustring \<Rightarrow> exn + ustring" where
  "team_id_from_db_or_slug ev team_name =
     (if \<not> client_encodes ev team_name then Inl UnicodeEncodeError
      else if 0 \<in> set team_name then Inl ValueError
      else if \<not> select_ok ev team_name then Inl DatabaseError
      else (case select_team ev team_name of
              Some r \<Rightarrow> Inr (fst r)
            | None \<Rightarrow> Inr (slug_from_name (lib ev) team_name)))"

section \<open>Run Orchestrator\<close>

text \<open>
  The body of the loop of \<^verbatim>\<open>main\<close> for one team, on the counter \<^verbatim>\<open>upserts\<close> and
  the state. The name is a query parameter and must be a string; an exception of the
  resolver ends the loop; the database may refuse the values of the row. \<^verbatim>\<open>time.sleep\<close> changes nothing that is modelled.
\<close>

definition process_team ::
    "env \<Rightarrow> ustring \<Rightarrow> team \<Rightarrow> nat \<times> world \<Rightarrow> (exn + nat) \<times> world" where
  "process_team ev sn t st =
     (case fetch_team_season_summary ev (code t) sn (snd st) of
        (Inl e, wd') \<Rightarrow> (Inl e, wd')
      | (Inr None, wd') \<Rightarrow> (Inr (fst st), wd')
      | (Inr (Some sm), wd') \<Rightarrow>
          (case name t of
             JStr nm \<Rightarrow>
               (case team_id_from_db_or_slug ev nm of
                  Inl e \<Rightarrow> (Inl e, wd')
                | Inr tid \<Rightarrow>
                    (let e = summary.extend sm
                               (params.fields tid sn
                                  (u ''api-web.nhle.com/'' @ code t @ u ''/'' @ sn))
                     in if accepts ev e
                        then (Inr (fst st + 1),
                              wd' \<lparr>pending := upsert (now ev) e (pending wd')\<rparr>)
                        else (Inl DatabaseError, wd')))
           | _ \<Rightarrow> (Inl DatabaseError, wd')))"

fun team_loop :: "env \<Rightarrow> ustring \<Rightarrow> team list \<Rightarrow> nat \<times> world \<Rightarrow> (exn + nat) \<times> world" where
  "team_loop ev sn [] st = (Inr (fst st), snd st)"
| "team_loop ev sn (t # ts) st =
     (case process_team ev sn t st of
        (Inl e, wd') \<Rightarrow> (Inl e, wd')
      | (Inr n, wd') \<Rightarrow> team_loop ev sn ts (n, wd'))"

text \<open>
  The first line of \<^verbatim>\<open>main\<close>, \<^verbatim>\<open>SEASON or infer_current_season()\<close>: a variable that
  is unset or empty is falsy.
\<close>

definition season_or_infer :: "env \<Rightarrow> ustring option \<Rightarrow> ustring" where
  "season_or_infer ev SEASON =
     (case SEASON of
        None \<Rightarrow> infer_current_season (today_et ev) None
      | Some s \<Rightarrow> if s \<noteq> [] then s else infer_current_season (today_et ev) None)"

text \<open>
  \<^verbatim>\<open>main()\<close>, given the module constants \<^verbatim>\<open>DB_URL\<close> and \<^verbatim>\<open>SEASON\<close>. The
  transaction opens on the committed table; only \<^verbatim>\<open>conn.commit()\<close> writes it back.
  The result is what the summary line prints: the counter and the season.
\<close>

definition main ::
    "env \<Rightarrow> ustring \<Rightarrow> ustring option \<Rightarrow> world \<Rightarrow> (exn + nat \<times> ustring) \<times> world" where
  "main ev DB_URL SEASON wd =
     (let sn = season_or_infer ev SEASON
      in if \<not> connect_ok ev DB_URL then (Inl DatabaseError, wd)
         else let wd0 = wd \<lparr>pending := nhl_team_stats wd\<rparr>
              in if \<not> extension_ok ev then (Inl DatabaseError, wd0)
                 else (case fetch_active_teams ev wd0 of
                         (Inl e, wd1) \<Rightarrow> (Inl e, wd1)
                       | (Inr teams, wd1) \<Rightarrow>
                           (case team_loop ev sn teams (0, wd1) of
                              (Inl e, wd2) \<Rightarrow> (Inl e, wd2)
                            | (Inr upserts, wd2) \<Rightarrow>
                                (Inr (upserts, sn),
                                 wd2 \<lparr>nhl_team_stats := pending wd2,
                                      commits := commits wd2 + 1\<rparr>))))"

text \<open>The key that line 10 of the script looks up in \<^verbatim>\<open>os.environ\<close>.\<close>

definition db_url_key :: ustring where
  "db_url_key = u ''postgres://tsdbadmin:<TIMESCALE_DB_PASSWORD>@jbzime1eq9.rj87e4urof.tsdb.cloud.timescale.com:34545/tsdb?sslmode=require''"

text \<open>
  The script from its first line: \<^verbatim>\<open>os.environ[...]\<close> raises \<^verbatim>\<open>KeyError\<close> when the
  key is absent, \<^verbatim>\<open>os.environ.get\<close> gives \<^verbatim>\<open>None\<close>.
\<close>

definition script :: "env \<Rightarrow> world \<Rightarrow> (exn + nat \<times> ustring) \<times> world" where
  "script ev wd =
     (case environ ev db_url_key of
        None \<Rightarrow> (Inl KeyError, wd)
      | Some DB_URL \<Rightarrow> main ev DB_URL (environ ev (u ''NHL_SEASON'')) wd)"

declare digits.simps [simp del]

section \<open>Reading the specification\<close>









section \<open>Example inputs\<close>

text \<open>The name Montreal Canadiens with U+00E9 as its fifth letter, and its NFKD form.\<close>

definition montreal :: ustring where
  "montreal = u ''Montr'' @ [233] @ u ''al Canadiens''"

definition montreal_nfkd :: ustring where
  "montreal_nfkd = u ''Montre'' @ [769] @ u ''al Canadiens''"

text \<open>
  An environment without variables, whose server never answers; the connection encodes
  in UTF-8, which has every character but the surrogates.
\<close>

definition quiet_env :: env where
  "quiet_env = \<lparr>
     environ = Map.empty,
     today_et = \<lparr>year = 2025, month = 10, day = 15\<rparr>,
     http = (\<lambda>n url. NoReply),
     lib = latin_lib,
     nhl_teams = [(u ''BOS'', u ''Boston Bruins'')],
     sql_unaccent = (\<lambda>s. filter (\<lambda>c. c \<noteq> 769) (normalize_nfkd latin_lib s)),
     sql_lower = str_lower latin_lib,
     client_encodes = list_all (\<lambda>c. c < 55296 \<or> 57343 < c),
     select_ok = (\<lambda>s. True),
     connect_ok = (\<lambda>url. True),
     extension_ok = True,
     accepts = (\<lambda>e. True),
     now = 1000 \<rparr>"

text \<open>
  The same environment with the connection string set and a server that answers the
  requests of a run, one after the other, from a list.
\<close>

definition scripted_env :: "reply list \<Rightarrow> env" where
  "scripted_env rs = quiet_env \<lparr>
     environ := [db_url_key \<mapsto> u ''postgres://localhost/nhl''],
     http := (\<lambda>n url. if n < length rs then rs ! n else NoReply) \<rparr>"

definition empty_world :: world where
  "empty_world = \<lparr>nhl_team_stats = [], pending = [], requests = [], commits = 0\<rparr>"

text \<open>Directory entries: two teams and an entry without a name.\<close>

definition bos_entry :: "(ustring \<times> json) list" where
  "bos_entry = [(u ''triCode'', JStr (u ''BOS'')), (u ''fullName'', JStr (u ''Boston Bruins''))]"

definition mtl_entry :: "(ustring \<times> json) list" where
  "mtl_entry = [(u ''triCode'', JStr (u ''MTL'')), (u ''fullName'', JStr []),
                (u ''teamName'', JStr montreal)]"

definition nameless_entry :: "(ustring \<times> json) list" where
  "nameless_entry = [(u ''triCode'', JStr (u ''XXX''))]"



text \<open>A name with the letter U+0142, which has no decomposition.\<close>

definition wisla :: ustring where
  "wisla = u ''Wis'' @ [322] @ u ''a''"

definition directory_reply :: reply where
  "directory_reply = Reply 200 (Some (JArr [JObj bos_entry, JObj nameless_entry, JObj mtl_entry]))"

text \<open>The statistics of the end-to-end example of the specification, and their row.\<close>

definition bruins_stats :: "(ustring \<times> json) list" where
  "bruins_stats =
     [(u ''gamesPlayed'', JInt 10), (u ''wins'', JInt 7), (u ''losses'', JInt 3),
      (u ''points'', JInt 14)]"

definition bruins_params :: params where
  "bruins_params =
     summary.extend (summary_out bruins_stats)
       (params.fields (u ''BOS'') (u ''20252026'') (u ''api-web.nhle.com/bos/20252026''))"

text \<open>
  Three runs over that directory. In the first the statistics of the first team arrive
  and the second request gets no answer; in the second the second team is answered
  with status 404; in the third the server answers both teams with a server error.
\<close>

definition abort_env :: env where
  "abort_env = scripted_env [directory_reply, Reply 200 (Some (JObj bruins_stats)), NoReply]"

definition season_env :: env where
  "season_env =
     scripted_env [directory_reply, Reply 200 (Some (JObj bruins_stats)), Reply 404 None]"

definition outage_env :: env where
  "outage_env = scripted_env [directory_reply, Reply 500 None, Reply 503 None]"

definition local_url :: ustring where
  "local_url = u ''postgres://localhost/nhl''"

definition bos_team :: team where
  "bos_team = \<lparr>code = u ''bos'', name = JStr (u ''Boston Bruins'')\<rparr>"

text \<open>A row written by an earlier run, with one game less.\<close>

definition earlier_row :: stats_row where
  "earlier_row = inserted_row 500 (bruins_params \<lparr>gp := JInt 9\<rparr>)"

text \<open>A team whose name holds the character NUL, and a run that meets it.\<close>

definition nul_name :: ustring where
  "nul_name = u ''Bos'' @ [0] @ u ''ton Bruins''"

definition nul_env :: env where
  "nul_env = scripted_env
     [Reply 200 (Some (JArr [JObj [(u ''triCode'', JStr (u ''BOS'')),
                                   (u ''fullName'', JStr nul_name)]])),
      Reply 200 (Some (JObj bruins_stats))]"

section \<open>Lemmas\<close>

subsection \<open>The slug\<close>

lemma az09_not_us: "is_az09 c \<Longrightarrow> c \<noteq> underscore"
  by (auto simp: is_az09_def underscore_def)

lemma re_sub_chars: "list_all slug_char (re_sub s)"
  by (induction s rule: re_sub.induct) (auto simp: slug_char_def)

lemma dropWhile_head: "dropWhile P xs \<noteq> [] \<Longrightarrow> \<not> P (hd (dropWhile P xs))"
  by (simp add: hd_dropWhile)

lemma re_sub_after_run:
  "re_sub (dropWhile (\<lambda>d. \<not> is_az09 d) cs) = [] \<or>
   is_az09 (hd (re_sub (dropWhile (\<lambda>d. \<not> is_az09 d) cs)))"
proof (cases "dropWhile (\<lambda>d. \<not> is_az09 d) cs")
  case Nil
  show ?thesis unfolding Nil by simp
next
  case (Cons a as)
  then have "is_az09 a"
    using dropWhile_head [of "\<lambda>d. \<not> is_az09 d" cs] by simp
  with Cons show ?thesis by simp
qed

lemma no_double_us_Cons:
  "no_double_us (c # s) =
     ((s \<noteq> [] \<longrightarrow> \<not> (c = underscore \<and> hd s = underscore)) \<and> no_double_us s)"
  by (cases s) auto

lemma re_sub_no_double: "no_double_us (re_sub s)"
proof (induction s rule: re_sub.induct)
  case 1
  then show ?case by simp
next
  case (2 c cs)
  show ?case
  proof (cases "is_az09 c")
    case True
    with 2 show ?thesis by (simp add: no_double_us_Cons az09_not_us)
  next
    case False
    with 2 re_sub_after_run [of cs] show ?thesis
      by (auto simp: no_double_us_Cons az09_not_us)
  qed
qed

lemma no_double_us_dropWhile: "no_double_us s \<Longrightarrow> no_double_us (dropWhile P s)"
  by (induction s) (auto simp: no_double_us_Cons)

lemma rstrip_us_Nil_iff: "rstrip_us s = [] \<longleftrightarrow> (\<forall>c\<in>set s. c = underscore)"
  by (induction s) (auto simp: Let_def)

lemma hd_rstrip_us: "rstrip_us s \<noteq> [] \<Longrightarrow> hd (rstrip_us s) = hd s"
  by (cases s) (auto simp: Let_def)

lemma no_double_us_rstrip: "no_double_us s \<Longrightarrow> no_double_us (rstrip_us s)"
  by (induction s) (auto simp: no_double_us_Cons Let_def hd_rstrip_us)

lemma last_rstrip_us: "rstrip_us s \<noteq> [] \<Longrightarrow> last (rstrip_us s) \<noteq> underscore"
  by (induction s) (auto simp: Let_def)

lemma set_rstrip_us: "set (rstrip_us s) \<subseteq> set s"
  by (induction s) (auto simp: Let_def)

lemma strip_us_chars: "list_all P s \<Longrightarrow> list_all P (strip_us s)"
  using set_rstrip_us [of "dropWhile (\<lambda>c. c = underscore) s"]
    set_dropWhileD [of _ "\<lambda>c. c = underscore" s]
  by (auto simp: strip_us_def list_all_iff)

lemma strip_us_ends:
  "strip_us s \<noteq> [] \<Longrightarrow> hd (strip_us s) \<noteq> underscore \<and> last (strip_us s) \<noteq> underscore"
proof -
  let ?d = "dropWhile (\<lambda>c. c = underscore) s"
  assume a: "strip_us s \<noteq> []"
  then have r: "rstrip_us ?d \<noteq> []" by (simp add: strip_us_def)
  then have "?d \<noteq> []" by (cases ?d) simp_all
  then have "hd ?d \<noteq> underscore" by (rule dropWhile_head)
  with r show ?thesis
    by (simp add: strip_us_def hd_rstrip_us last_rstrip_us)
qed

lemma strip_us_no_double: "no_double_us s \<Longrightarrow> no_double_us (strip_us s)"
  by (simp add: strip_us_def no_double_us_rstrip no_double_us_dropWhile)

lemma well_formed_strip_re_sub: "well_formed_slug (strip_us (re_sub s))"
  using strip_us_ends [of "re_sub s"]
  by (simp add: well_formed_slug_def strip_us_chars re_sub_chars strip_us_no_double
      re_sub_no_double)

lemma re_sub_fixed: "list_all slug_char s \<Longrightarrow> no_double_us s \<Longrightarrow> re_sub s = s"
proof (induction s rule: re_sub.induct)
  case 1
  then show ?case by simp
next
  case (2 c cs)
  show ?case
  proof (cases "is_az09 c")
    case True
    with 2 show ?thesis by (simp add: no_double_us_Cons)
  next
    case False
    with "2.prems" have c: "c = underscore" by (simp add: slug_char_def)
    have "dropWhile (\<lambda>d. \<not> is_az09 d) cs = cs"
    proof (cases cs)
      case Nil
      then show ?thesis by simp
    next
      case (Cons d ds)
      with "2.prems" c have "is_az09 d" by (auto simp: slug_char_def)
      with Cons show ?thesis by simp
    qed
    with 2 False c show ?thesis by (simp add: no_double_us_Cons)
  qed
qed

lemma rstrip_us_fixed: "s \<noteq> [] \<longrightarrow> last s \<noteq> underscore \<Longrightarrow> rstrip_us s = s"
proof (induction s)
  case Nil
  then show ?case by simp
next
  case (Cons c cs)
  show ?case
  proof (cases "cs = []")
    case True
    with Cons.prems show ?thesis by simp
  next
    case False
    with Cons have "rstrip_us cs = cs" by simp
    with False show ?thesis by simp
  qed
qed

lemma strip_us_fixed:
  "s \<noteq> [] \<longrightarrow> hd s \<noteq> underscore \<and> last s \<noteq> underscore \<Longrightarrow> strip_us s = s"
  by (cases s) (auto simp: strip_us_def rstrip_us_fixed simp del: rstrip_us.simps)

lemma slug_fixed:
  assumes "slug_stable lb" "well_formed_slug s"
  shows "slug_from_name lb s = s"
proof -
  from assms have a: "normalize_nfkd lb s = s" "str_lower lb s = s"
    "list_all (\<lambda>c. combining lb c = 0) s"
    by (auto simp: slug_stable_def well_formed_slug_def)
  from a(3) have "filter (\<lambda>c. combining lb c = 0) s = s"
    by (simp add: list_all_iff)
  with a assms(2) show ?thesis
    by (simp add: slug_from_name_def well_formed_slug_def re_sub_fixed strip_us_fixed)
qed

lemma latin_lib_stable: "slug_stable latin_lib"
proof -
  have n: "list_all slug_char s \<Longrightarrow>
      concat (map (\<lambda>c. if c = 233 then [101, 769] else [c]) s) = s" for s
    by (induction s) (auto simp: slug_char_def is_az09_def underscore_def)
  have lw: "list_all slug_char s \<Longrightarrow>
      map (\<lambda>c. if 65 \<le> c \<and> c \<le> 90 then c + 32 else c) s = s" for s
    by (induction s) (auto simp: slug_char_def is_az09_def underscore_def)
  have c: "list_all slug_char s \<Longrightarrow>
      list_all (\<lambda>c. (if c = 769 then 230 else 0) = (0::nat)) s" for s
    by (induction s) (auto simp: slug_char_def is_az09_def underscore_def)
  show ?thesis
    by (simp add: slug_stable_def latin_lib_def n lw c)
qed

text \<open>The scan of the regex engine and the wording of the specification agree.\<close>

lemma merge_us_letter: "c \<noteq> underscore \<Longrightarrow> merge_us (c # s) = c # merge_us s"
  by (cases s) simp_all

lemma merge_us_run:
  "merge_us (underscore # map (\<lambda>c. if is_az09 c then c else underscore) cs) =
   underscore # merge_us (map (\<lambda>c. if is_az09 c then c else underscore)
     (dropWhile (\<lambda>d. \<not> is_az09 d) cs))"
proof (induction cs)
  case Nil
  then show ?case by simp
next
  case (Cons d ds)
  then show ?case by (cases ds) (auto simp: az09_not_us merge_us_letter)
qed

lemma re_sub_replace_runs: "re_sub s = replace_runs s"
proof (induction s rule: re_sub.induct)
  case 1
  then show ?case by (simp add: replace_runs_def)
next
  case (2 c cs)
  then show ?case
    using merge_us_run [of cs]
    by (auto simp: replace_runs_def merge_us_letter az09_not_us)
qed

lemma rstrip_us_rev: "rstrip_us s = rev (dropWhile (\<lambda>c. c = underscore) (rev s))"
proof (induction s)
  case Nil
  then show ?case by simp
next
  case (Cons c cs)
  show ?case
  proof (cases "\<forall>x\<in>set cs. x = underscore")
    case True
    then have "dropWhile (\<lambda>c. c = underscore) (rev cs @ [c]) = dropWhile (\<lambda>c. c = underscore) [c]"
      by (intro dropWhile_append2) simp
    with True show ?thesis
      using rstrip_us_Nil_iff [of cs] by simp
  next
    case False
    then obtain x where "x \<in> set (rev cs)" "\<not> x = underscore" by auto
    then have "dropWhile (\<lambda>c. c = underscore) (rev cs @ [c]) =
        dropWhile (\<lambda>c. c = underscore) (rev cs) @ [c]"
      by (rule dropWhile_append1)
    with False Cons show ?thesis
      using rstrip_us_Nil_iff [of cs] by simp
  qed
qed

lemma strip_us_trim_us: "strip_us s = trim_us s"
  by (simp add: strip_us_def trim_us_def rstrip_us_rev)

lemma slug_from_name_spec_slug: "slug_from_name lb nm = spec_slug lb nm"
  by (simp add: slug_from_name_def spec_slug_def re_sub_replace_runs strip_us_trim_us)

subsection \<open>The upsert\<close>

lemma pkey_conflict_update: "pkey (conflict_update tnow e r) = pkey r"
  by (simp add: pkey_def conflict_update_def)

lemma pkey_inserted_row: "pkey (inserted_row tnow e) = pkey e"
  by (simp add: pkey_def inserted_row_def)

lemma holds_values_conflict_update: "holds_values e (conflict_update tnow e r)"
  by (simp add: holds_values_def conflict_update_def)

lemma holds_values_inserted_row: "holds_values e (inserted_row tnow e)"
  by (simp add: holds_values_def inserted_row_def)

lemma ingested_at_conflict_update: "ingested_at (conflict_update tnow e r) = tnow"
  by (simp add: conflict_update_def)

lemma ingested_at_inserted_row: "ingested_at (inserted_row tnow e) = tnow"
  by (simp add: inserted_row_def ingested_at_default_def)

lemma map_pkey_upsert:
  "map pkey (upsert tnow e tbl) =
     (if pkey e \<in> set (map pkey tbl) then map pkey tbl else map pkey tbl @ [pkey e])"
  by (induction tbl) (auto simp: pkey_conflict_update pkey_inserted_row)

lemma unique_keys_upsert: "unique_keys tbl \<Longrightarrow> unique_keys (upsert tnow e tbl)"
  by (simp add: unique_keys_def map_pkey_upsert)

lemma length_upsert:
  "length (upsert tnow e tbl) = (if pkey e \<in> set (map pkey tbl) then length tbl else Suc (length tbl))"
  using arg_cong [OF map_pkey_upsert [of tnow e tbl], of length] by (simp split: if_splits)

lemma pkey_in_upsert: "pkey e \<in> set (map pkey (upsert tnow e tbl))"
  by (simp add: map_pkey_upsert)

lemma rows_of_absent: "k \<notin> set (map pkey tbl) \<Longrightarrow> rows_of k tbl = []"
  by (induction tbl) (auto simp: rows_of_def)

lemma rows_of_upsert:
  "unique_keys tbl \<Longrightarrow>
   \<exists>r. rows_of (pkey e) (upsert tnow e tbl) = [r] \<and> holds_values e r \<and> ingested_at r = tnow"
proof (induction tbl)
  case Nil
  then show ?case
    by (simp add: rows_of_def pkey_inserted_row holds_values_inserted_row
        ingested_at_inserted_row)
next
  case (Cons r rs)
  show ?case
  proof (cases "pkey r = pkey e")
    case True
    with Cons.prems have "pkey e \<notin> set (map pkey rs)"
      by (auto simp: unique_keys_def)
    then have "rows_of (pkey e) rs = []" by (rule rows_of_absent)
    with True show ?thesis
      by (simp add: rows_of_def pkey_conflict_update holds_values_conflict_update
          ingested_at_conflict_update)
  next
    case False
    from Cons.prems have "unique_keys rs" by (simp add: unique_keys_def)
    with Cons.IH False show ?thesis by (simp add: rows_of_def)
  qed
qed

text \<open>A statement for another key leaves the rows of this key as they are.\<close>

lemma rows_of_upsert_other: "k \<noteq> pkey e \<Longrightarrow> rows_of k (upsert tnow e tbl) = rows_of k tbl"
  by (induction tbl) (auto simp: rows_of_def pkey_conflict_update pkey_inserted_row)


subsection \<open>Requests change nothing but the list of requests\<close>

lemma snd_nhl_get: "snd (nhl_get ev url wd) = wd \<lparr>requests := requests wd @ [url]\<rparr>"
  by (simp add: nhl_get_def Let_def split: reply.splits option.splits)

lemma snd_fetch_team_season_summary:
  "snd (fetch_team_season_summary ev c sn wd) =
     wd \<lparr>requests := requests wd @ [stats_url (lib ev) c sn]\<rparr>"
proof -
  obtain r wd' where g: "nhl_get ev (stats_url (lib ev) c sn) wd = (r, wd')"
    by (cases "nhl_get ev (stats_url (lib ev) c sn) wd")
  with snd_nhl_get [of ev "stats_url (lib ev) c sn" wd]
  have "wd' = wd \<lparr>requests := requests wd @ [stats_url (lib ev) c sn]\<rparr>" by simp
  with g show ?thesis
    by (simp add: fetch_team_season_summary_def split: sum.splits exn.splits json.splits)
qed

lemma snd_fetch_active_teams:
  "snd (fetch_active_teams ev wd) = wd \<lparr>requests := requests wd @ [teams_url]\<rparr>"
proof -
  obtain r wd' where g: "nhl_get ev teams_url wd = (r, wd')"
    by (cases "nhl_get ev teams_url wd")
  with snd_nhl_get [of ev teams_url wd]
  have "wd' = wd \<lparr>requests := requests wd @ [teams_url]\<rparr>" by simp
  with g show ?thesis
    by (simp add: fetch_active_teams_def split: sum.splits)
qed

lemma fetch_team_season_summary_cases:
  "fst (fetch_team_season_summary ev c sn wd) =
     (case http ev (length (requests wd)) (stats_url (lib ev) c sn) of
        NoReply \<Rightarrow> Inl ConnectionError
      | Reply status body \<Rightarrow>
          if 400 \<le> status \<and> status < 600 then Inr None
          else (case body of
                  None \<Rightarrow> Inl JSONDecodeError
                | Some (JObj d) \<Rightarrow> Inr (Some (summary_out d))
                | Some _ \<Rightarrow> Inl AttributeError))"
  by (cases "http ev (length (requests wd)) (stats_url (lib ev) c sn)")
    (auto simp: fetch_team_season_summary_def nhl_get_def Let_def
      split: option.splits json.splits)

lemma process_team_skip:
  assumes "fst (fetch_team_season_summary ev (code t) sn wd) = Inr None"
  shows "process_team ev sn t (n, wd) =
           (Inr n, wd \<lparr>requests := requests wd @ [stats_url (lib ev) (code t) sn]\<rparr>)"
proof -
  obtain r wd' where f: "fetch_team_season_summary ev (code t) sn wd = (r, wd')"
    by (cases "fetch_team_season_summary ev (code t) sn wd")
  with assms snd_fetch_team_season_summary [of ev "code t" sn wd]
  show ?thesis by (simp add: process_team_def)
qed

lemma process_team_raise:
  assumes "fst (fetch_team_season_summary ev (code t) sn wd) = Inl e"
  shows "process_team ev sn t (n, wd) =
           (Inl e, wd \<lparr>requests := requests wd @ [stats_url (lib ev) (code t) sn]\<rparr>)"
proof -
  obtain r wd' where f: "fetch_team_season_summary ev (code t) sn wd = (r, wd')"
    by (cases "fetch_team_season_summary ev (code t) sn wd")
  with assms snd_fetch_team_season_summary [of ev "code t" sn wd]
  show ?thesis by (simp add: process_team_def)
qed

lemma process_team_frame:
  "nhl_team_stats (snd (process_team ev sn t st)) = nhl_team_stats (snd st) \<and>
   commits (snd (process_team ev sn t st)) = commits (snd st)"
proof -
  obtain r wd' where f: "fetch_team_season_summary ev (code t) sn (snd st) = (r, wd')"
    by (cases "fetch_team_season_summary ev (code t) sn (snd st)")
  with snd_fetch_team_season_summary [of ev "code t" sn "snd st"]
  have "wd' = (snd st) \<lparr>requests := requests (snd st) @ [stats_url (lib ev) (code t) sn]\<rparr>"
    by simp
  with f show ?thesis
    by (simp add: process_team_def Let_def split: sum.splits option.splits json.splits)
qed

lemma team_loop_frame:
  "nhl_team_stats (snd (team_loop ev sn ts st)) = nhl_team_stats (snd st) \<and>
   commits (snd (team_loop ev sn ts st)) = commits (snd st)"
proof (induction ts arbitrary: st)
  case Nil
  then show ?case by simp
next
  case (Cons t ts)
  obtain r wd' where p: "process_team ev sn t st = (r, wd')"
    by (cases "process_team ev sn t st")
  with process_team_frame [of ev sn t st]
  have fr: "nhl_team_stats wd' = nhl_team_stats (snd st)" "commits wd' = commits (snd st)"
    by simp_all
  show ?case
  proof (cases r)
    case (Inl e)
    with p fr show ?thesis by simp
  next
    case (Inr n)
    with p fr Cons.IH [of "(n, wd')"] show ?thesis by simp
  qed
qed

lemma team_loop_append:
  "team_loop ev sn (ts1 @ ts2) st =
     (case team_loop ev sn ts1 st of
        (Inl e, wd') \<Rightarrow> (Inl e, wd')
      | (Inr n, wd') \<Rightarrow> team_loop ev sn ts2 (n, wd'))"
  by (induction ts1 arbitrary: st) (auto split: prod.splits sum.splits)

subsection \<open>The directory\<close>









subsection \<open>The run\<close>

lemma main_frame_raise:
  assumes "fetch_active_teams ev (wd \<lparr>pending := nhl_team_stats wd\<rparr>) = (Inr teams, wd1)"
    and "fst (team_loop ev (season_or_infer ev ssn) teams (0, wd1)) = Inl e"
    and "connect_ok ev url" and "extension_ok ev"
  shows "fst (main ev url ssn wd) = Inl e"
proof -
  obtain r2 wd2 where lp: "team_loop ev (season_or_infer ev ssn) teams (0, wd1) = (r2, wd2)"
    by (cases "team_loop ev (season_or_infer ev ssn) teams (0, wd1)")
  with assms show ?thesis by (simp add: main_def Let_def)
qed

lemmas run_eval =
  main_def Let_def scripted_env_def quiet_env_def empty_world_def season_or_infer_def
  fetch_active_teams_def nhl_get_def directory_reply_def bos_entry_def mtl_entry_def
  nameless_entry_def bruins_stats_def dict_get_def py_or_def u_def montreal_def latin_lib_def
  process_team_def fetch_team_season_summary_def team_id_from_db_or_slug_def
  select_team_def infer_current_season_def str_int_def digits.simps local_url_def
  pkey_def inserted_row_def summary.defs params.defs

text \<open>
  The key of line 10 contains the character \<open>=\<close>, which the name of an environment
  variable cannot contain: in an environment whose names are free of it, the script
  always ends at that line.
\<close>

lemma db_url_key_has_equals: "61 \<in> set db_url_key"
  by (simp add: db_url_key_def u_def)

lemma script_never_starts:
  assumes "\<forall>k\<in>dom (environ ev). 61 \<notin> set k"
  shows "script ev wd = (Inl KeyError, wd)"
proof -
  have "environ ev db_url_key = None"
  proof (cases "environ ev db_url_key")
    case None
    then show ?thesis .
  next
    case (Some v)
    then have "db_url_key \<in> dom (environ ev)" by blast
    with assms db_url_key_has_equals show ?thesis by blast
  qed
  then show ?thesis by (simp add: script_def)
qed

section \<open>The claims\<close>

text \<open>
  C1. Upsert idempotence. On a table that respects the unique index, the statement run
  twice with the same parameters, the second time no earlier than the first, leaves
  exactly one row for the key; every column but the key holds the parameter's value;
  \<^verbatim>\<open>ingested_at\<close> of the second run is at least that of the first; the second run adds
  no row; and the keys of the table stay distinct.
\<close>

theorem upsert_twice_one_row:
  assumes "unique_keys tbl" and "t1 \<le> t2"
  shows "unique_keys (upsert t1 e tbl) \<and>
         unique_keys (upsert t2 e (upsert t1 e tbl)) \<and>
         length (upsert t2 e (upsert t1 e tbl)) = length (upsert t1 e tbl) \<and>
         (\<exists>r1 r2. rows_of (pkey e) (upsert t1 e tbl) = [r1] \<and>
                  rows_of (pkey e) (upsert t2 e (upsert t1 e tbl)) = [r2] \<and>
                  holds_values e r2 \<and>
                  ingested_at r1 = t1 \<and> ingested_at r2 = t2 \<and>
                  ingested_at r1 \<le> ingested_at r2)"
proof -
  have u1: "unique_keys (upsert t1 e tbl)"
    using assms(1) by (rule unique_keys_upsert)
  then have u2: "unique_keys (upsert t2 e (upsert t1 e tbl))"
    by (rule unique_keys_upsert)
  have len: "length (upsert t2 e (upsert t1 e tbl)) = length (upsert t1 e tbl)"
    using pkey_in_upsert [of e t1 tbl] by (simp only: length_upsert if_True)
  from rows_of_upsert [OF assms(1), of e t1]
  obtain r1 where r1: "rows_of (pkey e) (upsert t1 e tbl) = [r1]" "ingested_at r1 = t1"
    by blast
  from rows_of_upsert [OF u1, of e t2]
  obtain r2 where r2: "rows_of (pkey e) (upsert t2 e (upsert t1 e tbl)) = [r2]"
    "holds_values e r2" "ingested_at r2 = t2"
    by blast
  from r1 r2 assms(2) have "\<exists>r1 r2. rows_of (pkey e) (upsert t1 e tbl) = [r1] \<and>
                  rows_of (pkey e) (upsert t2 e (upsert t1 e tbl)) = [r2] \<and>
                  holds_values e r2 \<and>
                  ingested_at r1 = t1 \<and> ingested_at r2 = t2 \<and>
                  ingested_at r1 \<le> ingested_at r2"
    by simp
  with u1 u2 len show ?thesis by blast
qed

theorem upsert_twice_one_row_witness:
  "unique_keys [earlier_row] \<and> (1000::int) \<le> 2000 \<and>
   upsert 2000 bruins_params (upsert 1000 bruins_params [earlier_row]) =
     [inserted_row 2000 bruins_params] \<and>
   unique_keys (upsert 2000 bruins_params (upsert 1000 bruins_params [earlier_row])) \<and>
   (\<exists>r1 r2. rows_of (pkey bruins_params) (upsert 1000 bruins_params [earlier_row]) = [r1] \<and>
            rows_of (pkey bruins_params)
              (upsert 2000 bruins_params (upsert 1000 bruins_params [earlier_row])) = [r2] \<and>
            holds_values bruins_params r2 \<and>
            ingested_at r1 = 1000 \<and> ingested_at r2 = 2000 \<and>
            ingested_at r1 \<le> ingested_at r2)"
proof -
  have uk: "unique_keys [earlier_row]"
    by (simp add: unique_keys_def)
  have k: "pkey earlier_row = pkey bruins_params"
    by (simp add: earlier_row_def pkey_def inserted_row_def)
  have v: "upsert 2000 bruins_params (upsert 1000 bruins_params [earlier_row]) =
      [inserted_row 2000 bruins_params]"
    by (simp add: k pkey_conflict_update)
      (simp add: earlier_row_def conflict_update_def inserted_row_def ingested_at_default_def)
  from upsert_twice_one_row [OF uk, of 1000 2000 bruins_params] uk v
  show ?thesis by simp
qed

text \<open>
  C2. Run atomicity. A run that ends with an exception leaves the committed table and
  the number of commits as they were, whatever the open transaction had written. A
  run that ends normally has committed exactly once, and what it committed is the
  transaction's table after the loop has gone through every team of the directory.
\<close>

theorem run_is_atomic:
  "(\<forall>e wd'. main ev url ssn wd = (Inl e, wd') \<longrightarrow>
      nhl_team_stats wd' = nhl_team_stats wd \<and> commits wd' = commits wd) \<and>
   (\<forall>n sn wd'. main ev url ssn wd = (Inr (n, sn), wd') \<longrightarrow>
      commits wd' = commits wd + 1 \<and>
      (\<exists>teams wd1 wd2.
         fetch_active_teams ev (wd \<lparr>pending := nhl_team_stats wd\<rparr>) = (Inr teams, wd1) \<and>
         team_loop ev sn teams (0, wd1) = (Inr n, wd2) \<and>
         nhl_team_stats wd' = pending wd2))"
proof -
  let ?wd0 = "wd \<lparr>pending := nhl_team_stats wd\<rparr>"
  let ?sn = "season_or_infer ev ssn"
  obtain r1 wd1 where f: "fetch_active_teams ev ?wd0 = (r1, wd1)"
    by (cases "fetch_active_teams ev ?wd0")
  with snd_fetch_active_teams [of ev ?wd0]
  have fr1: "nhl_team_stats wd1 = nhl_team_stats wd" "commits wd1 = commits wd"
    by simp_all
  show ?thesis
  proof (cases r1)
    case (Inl e)
    with f fr1 show ?thesis
      by (auto simp: main_def Let_def split: if_splits)
  next
    case (Inr teams)
    obtain r2 wd2 where lp: "team_loop ev ?sn teams (0, wd1) = (r2, wd2)"
      by (cases "team_loop ev ?sn teams (0, wd1)")
    with team_loop_frame [of ev ?sn teams "(0, wd1)"] fr1
    have fr2: "nhl_team_stats wd2 = nhl_team_stats wd" "commits wd2 = commits wd"
      by simp_all
    from Inr f lp fr2 show ?thesis
      by (cases r2) (auto simp: main_def Let_def split: if_splits)
  qed
qed

theorem run_is_atomic_witness:
  "fst (main abort_env local_url None empty_world) = Inl ConnectionError \<and>
   map pkey (pending (snd (main abort_env local_url None empty_world))) =
     [(u ''BOS'', u ''20252026'')] \<and>
   nhl_team_stats (snd (main abort_env local_url None empty_world)) = [] \<and>
   commits (snd (main abort_env local_url None empty_world)) = 0 \<and>
   fst (main season_env local_url None empty_world) = Inr (1, u ''20252026'') \<and>
   map pkey (nhl_team_stats (snd (main season_env local_url None empty_world))) =
     [(u ''BOS'', u ''20252026'')] \<and>
   commits (snd (main season_env local_url None empty_world)) = 1"
proof -
  have a: "fst (main abort_env local_url None empty_world) = Inl ConnectionError"
    by (simp add: abort_env_def run_eval)
  have b: "map pkey (pending (snd (main abort_env local_url None empty_world))) =
      [(u ''BOS'', u ''20252026'')]"
    by (simp add: abort_env_def run_eval)
  have c: "fst (main season_env local_url None empty_world) = Inr (1, u ''20252026'')"
    by (simp add: season_env_def run_eval)
  have d: "map pkey (nhl_team_stats (snd (main season_env local_url None empty_world))) =
      [(u ''BOS'', u ''20252026'')]"
    by (simp add: season_env_def run_eval)
  from run_is_atomic [of abort_env local_url None empty_world] a
  have "nhl_team_stats (snd (main abort_env local_url None empty_world)) =
          nhl_team_stats empty_world \<and>
        commits (snd (main abort_env local_url None empty_world)) = commits empty_world"
    by (metis prod.collapse)
  moreover from run_is_atomic [of season_env local_url None empty_world] c
  have "commits (snd (main season_env local_url None empty_world)) = commits empty_world + 1"
    by (metis prod.collapse)
  ultimately show ?thesis
    using a b c d by (simp add: empty_world_def)
qed

text \<open>
  C3, as stated, fails: a server error on the statistics of a team does not raise. The
  fetcher answers \<^verbatim>\<open>None\<close> to status 500 as it does to status 404, each team is
  skipped, and the run ends normally with nothing upserted and one commit.
\<close>

theorem server_error_does_not_abort:
  "fst (fetch_team_season_summary outage_env (u ''bos'') (u ''20252026'')
          (snd (fetch_active_teams outage_env empty_world))) = Inr None \<and>
   fst (main outage_env local_url None empty_world) = Inr (0, u ''20252026'') \<and>
   commits (snd (main outage_env local_url None empty_world)) = 1"
  by (simp add: outage_env_def run_eval snd_fetch_active_teams fetch_team_season_summary_cases)

text \<open>
  C3, amended. When the request for the statistics of a team is answered with any
  HTTP error status, from 400 to 599, the fetcher returns \<^verbatim>\<open>None\<close> and the loop goes
  on to the next team with the counter as it was. When the request gets no answer, or
  an answer without error status whose body is not JSON, the fetcher raises, the loop
  stops at this team wherever it stands in the directory, and the run ends with that
  exception.
\<close>

theorem stats_fetch_error_discrimination:
  "(http ev (length (requests wd)) (stats_url (lib ev) (code t) sn) = Reply status body \<and>
    400 \<le> status \<and> status < 600 \<longrightarrow>
      fst (fetch_team_season_summary ev (code t) sn wd) = Inr None \<and>
      team_loop ev sn (t # ts) (n, wd) =
        team_loop ev sn ts (n, snd (fetch_team_season_summary ev (code t) sn wd))) \<and>
   ((http ev (length (requests wd)) (stats_url (lib ev) (code t) sn) = NoReply \<and>
       e = ConnectionError \<or>
     http ev (length (requests wd)) (stats_url (lib ev) (code t) sn) = Reply status None \<and>
       \<not> (400 \<le> status \<and> status < 600) \<and> e = JSONDecodeError) \<longrightarrow>
      fst (fetch_team_season_summary ev (code t) sn wd) = Inl e \<and>
      (\<forall>before st0. team_loop ev sn before st0 = (Inr n, wd) \<longrightarrow>
         fst (team_loop ev sn (before @ t # ts) st0) = Inl e)) \<and>
   (fetch_active_teams ev (wd0 \<lparr>pending := nhl_team_stats wd0\<rparr>) = (Inr teams, wd1) \<and>
    fst (team_loop ev (season_or_infer ev ssn) teams (0, wd1)) = Inl e' \<and>
    connect_ok ev url \<and> extension_ok ev \<longrightarrow>
      fst (main ev url ssn wd0) = Inl e')"
proof (intro conjI impI)
  assume "http ev (length (requests wd)) (stats_url (lib ev) (code t) sn) = Reply status body \<and>
    400 \<le> status \<and> status < 600"
  then show f: "fst (fetch_team_season_summary ev (code t) sn wd) = Inr None"
    by (simp add: fetch_team_season_summary_cases)
  show "team_loop ev sn (t # ts) (n, wd) =
      team_loop ev sn ts (n, snd (fetch_team_season_summary ev (code t) sn wd))"
    using process_team_skip [OF f, of n] by (simp add: snd_fetch_team_season_summary)
next
  assume "http ev (length (requests wd)) (stats_url (lib ev) (code t) sn) = NoReply \<and>
       e = ConnectionError \<or>
     http ev (length (requests wd)) (stats_url (lib ev) (code t) sn) = Reply status None \<and>
       \<not> (400 \<le> status \<and> status < 600) \<and> e = JSONDecodeError"
  then show f: "fst (fetch_team_season_summary ev (code t) sn wd) = Inl e"
    by (auto simp: fetch_team_season_summary_cases)
  show "\<forall>before st0. team_loop ev sn before st0 = (Inr n, wd) \<longrightarrow>
      fst (team_loop ev sn (before @ t # ts) st0) = Inl e"
    using process_team_raise [OF f, of n] by (simp add: team_loop_append)
next
  assume "fetch_active_teams ev (wd0 \<lparr>pending := nhl_team_stats wd0\<rparr>) = (Inr teams, wd1) \<and>
    fst (team_loop ev (season_or_infer ev ssn) teams (0, wd1)) = Inl e' \<and>
    connect_ok ev url \<and> extension_ok ev"
  then show "fst (main ev url ssn wd0) = Inl e'"
    by (simp add: main_frame_raise)
qed

theorem stats_fetch_error_discrimination_witness:
  "http (scripted_env [Reply 404 None]) (length (requests empty_world))
     (stats_url (lib (scripted_env [Reply 404 None])) (code bos_team) (u ''20252026'')) =
     Reply 404 None \<and>
   fst (fetch_team_season_summary (scripted_env [Reply 404 None]) (code bos_team)
          (u ''20252026'') empty_world) = Inr None \<and>
   fst (team_loop (scripted_env [Reply 404 None]) (u ''20252026'') [bos_team] (7, empty_world)) =
     Inr 7 \<and>
   http quiet_env (length (requests empty_world))
     (stats_url (lib quiet_env) (code bos_team) (u ''20252026'')) = NoReply \<and>
   fst (fetch_team_season_summary quiet_env (code bos_team) (u ''20252026'') empty_world) =
     Inl ConnectionError \<and>
   fst (team_loop quiet_env (u ''20252026'') [bos_team, bos_team] (0, empty_world)) =
     Inl ConnectionError \<and>
   fst (main abort_env local_url None empty_world) = Inl ConnectionError"
proof -
  let ?E = "scripted_env [Reply 404 None]"
  let ?sn = "u ''20252026''"
  have h1: "http ?E (length (requests empty_world))
      (stats_url (lib ?E) (code bos_team) ?sn) = Reply 404 None"
    by (simp add: scripted_env_def empty_world_def)
  have h2: "http quiet_env (length (requests empty_world))
      (stats_url (lib quiet_env) (code bos_team) ?sn) = NoReply"
    by (simp add: quiet_env_def)
  have l0: "team_loop quiet_env ?sn [] (0, empty_world) = (Inr 0, empty_world)"
    by simp
  have f3: "fetch_active_teams abort_env (empty_world \<lparr>pending := nhl_team_stats empty_world\<rparr>) =
      (Inr [\<lparr>code = u ''bos'', name = JStr (u ''Boston Bruins'')\<rparr>,
            \<lparr>code = u ''mtl'', name = JStr montreal\<rparr>],
       empty_world \<lparr>requests := [teams_url]\<rparr>)"
    by (simp add: abort_env_def run_eval)
  have l3: "fst (team_loop abort_env (season_or_infer abort_env None)
      [\<lparr>code = u ''bos'', name = JStr (u ''Boston Bruins'')\<rparr>,
       \<lparr>code = u ''mtl'', name = JStr montreal\<rparr>]
      (0, empty_world \<lparr>requests := [teams_url]\<rparr>)) = Inl ConnectionError"
    by (simp add: abort_env_def run_eval)
  have ok: "connect_ok abort_env local_url" "extension_ok abort_env"
    by (simp_all add: abort_env_def scripted_env_def quiet_env_def)
  note a = stats_fetch_error_discrimination
    [of ?E empty_world bos_team ?sn 404 None "[]" 7 ConnectionError
        empty_world "[]" empty_world None ConnectionError local_url]
  note b = stats_fetch_error_discrimination
    [of quiet_env empty_world bos_team ?sn 0 None "[bos_team]" 0 ConnectionError
        empty_world
        "[\<lparr>code = u ''bos'', name = JStr (u ''Boston Bruins'')\<rparr>,
          \<lparr>code = u ''mtl'', name = JStr montreal\<rparr>]"
        "empty_world \<lparr>requests := [teams_url]\<rparr>" None ConnectionError local_url]
  note c = stats_fetch_error_discrimination
    [of abort_env empty_world bos_team ?sn 0 None "[]" 0 ConnectionError
        empty_world
        "[\<lparr>code = u ''bos'', name = JStr (u ''Boston Bruins'')\<rparr>,
          \<lparr>code = u ''mtl'', name = JStr montreal\<rparr>]"
        "empty_world \<lparr>requests := [teams_url]\<rparr>" None ConnectionError local_url]
  from a h1 have a1: "fst (fetch_team_season_summary ?E (code bos_team) ?sn empty_world) = Inr None"
    and a2: "team_loop ?E ?sn [bos_team] (7, empty_world) =
      team_loop ?E ?sn [] (7, snd (fetch_team_season_summary ?E (code bos_team) ?sn empty_world))"
    by simp_all
  from b h2 have b1: "fst (fetch_team_season_summary quiet_env (code bos_team) ?sn empty_world) =
      Inl ConnectionError"
    and b2: "\<forall>before st0. team_loop quiet_env ?sn before st0 = (Inr 0, empty_world) \<longrightarrow>
      fst (team_loop quiet_env ?sn (before @ bos_team # [bos_team]) st0) = Inl ConnectionError"
    by simp_all
  from b2 l0 have b3: "fst (team_loop quiet_env ?sn [bos_team, bos_team] (0, empty_world)) =
      Inl ConnectionError"
    by (metis append_Nil)
  from c f3 l3 ok have c1: "fst (main abort_env local_url None empty_world) = Inl ConnectionError"
    by blast
  from a2 have a3: "fst (team_loop ?E ?sn [bos_team] (7, empty_world)) = Inr 7"
    by simp
  from h1 h2 a1 a3 b1 b3 c1 show ?thesis by simp
qed

text \<open>
  C4 does not hold of the code: \<^verbatim>\<open>or\<close> passes over a value that is present and
  falsy. A response with \<^verbatim>\<open>otLosses\<close> equal to 0 and no \<^verbatim>\<open>overtimeLosses\<close> is
  mapped to a record whose \<^verbatim>\<open>ot\<close> is \<^verbatim>\<open>None\<close>, while \<^verbatim>\<open>gamesPlayed\<close> equal to 0 is
  kept as 0; and a \<^verbatim>\<open>regulationPlusOtWins\<close> of 0 loses to the value of \<^verbatim>\<open>row\<close>.
\<close>

theorem zero_overtime_losses_dropped:
  "ot (summary_out [(u ''otLosses'', JInt 0)]) = JNull \<and>
   gp (summary_out [(u ''gamesPlayed'', JInt 0)]) = JInt 0 \<and>
   row (summary_out [(u ''regulationPlusOtWins'', JInt 0), (u ''row'', JInt 5)]) = JInt 5 \<and>
   fst (fetch_team_season_summary
          (scripted_env [Reply 200 (Some (JObj [(u ''otLosses'', JInt 0)]))])
          (u ''bos'') (u ''20252026'') empty_world) =
     Inr (Some (summary_out [(u ''otLosses'', JInt 0)]))"
  by (simp add: summary_out_def dict_get_def py_or_def u_def fetch_team_season_summary_cases
      scripted_env_def empty_world_def)

text \<open>
  C5. Season inference. For a date in the months 7 to 12 of year \<open>Y\<close> the season is the
  decimal form of \<open>Y\<close> followed by that of \<open>Y + 1\<close>; for a date in the months 1 to 6
  it is that of \<open>Y - 1\<close> followed by that of \<open>Y\<close>. This holds for a date that is
  given and for the current date, which is used when none is given; and with no
  override (the variable unset or empty) the run uses the inferred season. The
  function is total: it returns a string for every date.
\<close>

theorem infer_current_season_rule:
  "(7 \<le> month d \<and> month d \<le> 12 \<longrightarrow>
      infer_current_season te (Some d) = str_int (year d) @ str_int (year d + 1)) \<and>
   (1 \<le> month d \<and> month d \<le> 6 \<longrightarrow>
      infer_current_season te (Some d) = str_int (year d - 1) @ str_int (year d)) \<and>
   (7 \<le> month te \<and> month te \<le> 12 \<longrightarrow>
      infer_current_season te None = str_int (year te) @ str_int (year te + 1)) \<and>
   (1 \<le> month te \<and> month te \<le> 6 \<longrightarrow>
      infer_current_season te None = str_int (year te - 1) @ str_int (year te)) \<and>
   season_or_infer ev None = infer_current_season (today_et ev) None \<and>
   season_or_infer ev (Some []) = infer_current_season (today_et ev) None"
  by (simp add: infer_current_season_def season_or_infer_def Let_def)

theorem infer_current_season_rule_witness:
  "infer_current_season \<lparr>year = 2026, month = 3, day = 1\<rparr>
     (Some \<lparr>year = 2025, month = 10, day = 15\<rparr>) = u ''20252026'' \<and>
   infer_current_season \<lparr>year = 2026, month = 3, day = 1\<rparr>
     (Some \<lparr>year = 2025, month = 6, day = 30\<rparr>) = u ''20242025'' \<and>
   infer_current_season \<lparr>year = 2026, month = 3, day = 1\<rparr> None = u ''20252026'' \<and>
   infer_current_season \<lparr>year = 2026, month = 12, day = 31\<rparr> None = u ''20262027'' \<and>
   season_or_infer quiet_env None = u ''20252026''"
proof -
  have d: "str_int 2024 = u ''2024''" "str_int 2025 = u ''2025''" "str_int 2026 = u ''2026''"
    "str_int 2027 = u ''2027''"
    by (simp_all add: str_int_def digits.simps u_def)
  have q: "today_et quiet_env = \<lparr>year = 2025, month = 10, day = 15\<rparr>"
    by (simp add: quiet_env_def)
  from infer_current_season_rule [of "\<lparr>year = 2025, month = 10, day = 15\<rparr>"
      "\<lparr>year = 2026, month = 3, day = 1\<rparr>" quiet_env]
    infer_current_season_rule [of "\<lparr>year = 2025, month = 6, day = 30\<rparr>"
      "\<lparr>year = 2026, month = 3, day = 1\<rparr>" quiet_env]
    infer_current_season_rule [of "\<lparr>year = 2025, month = 6, day = 30\<rparr>"
      "\<lparr>year = 2026, month = 12, day = 31\<rparr>" quiet_env]
    infer_current_season_rule [of "\<lparr>year = 2025, month = 6, day = 30\<rparr>"
      "\<lparr>year = 2025, month = 10, day = 15\<rparr>" quiet_env]
  show ?thesis by (simp add: d q u_def)
qed

text \<open>
  C6. No data. When the fetcher returns \<^verbatim>\<open>None\<close> for a team, the body of the loop
  returns the counter as it was, and neither the transaction's table nor the committed
  table nor the number of commits has changed: no row is written or updated, so a
  prior row of the team stays as it is. The loop goes on with the next team.
\<close>

theorem no_data_leaves_state:
  "fst (fetch_team_season_summary ev (code t) sn wd) = Inr None \<longrightarrow>
     fst (process_team ev sn t (n, wd)) = Inr n \<and>
     pending (snd (process_team ev sn t (n, wd))) = pending wd \<and>
     nhl_team_stats (snd (process_team ev sn t (n, wd))) = nhl_team_stats wd \<and>
     commits (snd (process_team ev sn t (n, wd))) = commits wd \<and>
     team_loop ev sn (t # ts) (n, wd) =
       team_loop ev sn ts (n, snd (fetch_team_season_summary ev (code t) sn wd))"
  by (simp add: process_team_skip snd_fetch_team_season_summary)

theorem no_data_leaves_state_witness:
  "fst (fetch_team_season_summary (scripted_env [Reply 404 None]) (code bos_team)
          (u ''20252026'') (empty_world \<lparr>pending := [earlier_row]\<rparr>)) = Inr None \<and>
   fst (process_team (scripted_env [Reply 404 None]) (u ''20252026'') bos_team
          (3, empty_world \<lparr>pending := [earlier_row]\<rparr>)) = Inr 3 \<and>
   pending (snd (process_team (scripted_env [Reply 404 None]) (u ''20252026'') bos_team
          (3, empty_world \<lparr>pending := [earlier_row]\<rparr>))) = [earlier_row]"
proof -
  have f: "fst (fetch_team_season_summary (scripted_env [Reply 404 None]) (code bos_team)
      (u ''20252026'') (empty_world \<lparr>pending := [earlier_row]\<rparr>)) = Inr None"
    by (simp add: fetch_team_season_summary_cases scripted_env_def empty_world_def)
  from no_data_leaves_state [of "scripted_env [Reply 404 None]" bos_team "u ''20252026''"
      "empty_world \<lparr>pending := [earlier_row]\<rparr>" 3 "[]"] f
  show ?thesis by simp
qed

text \<open>
  C7. Required configuration. The connection string is read from the environment.
  When the variable that the script looks up is absent, the script ends with
  \<^verbatim>\<open>KeyError\<close> and the state is the one it started in: no request has been sent and
  nothing has been written.
\<close>

theorem missing_db_url_fails_first:
  "environ ev db_url_key = None \<longrightarrow> script ev wd = (Inl KeyError, wd)"
  by (simp add: script_def)

theorem missing_db_url_fails_first_witness:
  "environ quiet_env db_url_key = None \<and>
   script quiet_env empty_world = (Inl KeyError, empty_world) \<and>
   requests (snd (script quiet_env empty_world)) = []"
proof -
  have a: "environ quiet_env db_url_key = None"
    by (simp add: quiet_env_def)
  from missing_db_url_fails_first [of quiet_env empty_world] a
  show ?thesis by (simp add: empty_world_def)
qed




text \<open>
  C9, as stated, fails: the resolver has an error condition. For a name that holds the
  character NUL and matches no row of the reference table, \<^verbatim>\<open>cur.execute\<close> raises
  \<^verbatim>\<open>ValueError\<close>: no slug is returned, and the run ends with that exception and
  nothing committed. And the characters replaced are those outside \<^verbatim>\<open>[a-z0-9]\<close>,
  letters among them: in a name with U+0142, a letter without decomposition, that
  letter becomes an underscore.
\<close>

theorem resolver_raises_on_nul:
  "select_team quiet_env nul_name = None \<and>
   team_id_from_db_or_slug quiet_env nul_name = Inl ValueError \<and>
   fst (main nul_env local_url None empty_world) = Inl ValueError \<and>
   nhl_team_stats (snd (main nul_env local_url None empty_world)) = [] \<and>
   commits (snd (main nul_env local_url None empty_world)) = 0 \<and>
   slug_from_name latin_lib wisla = u ''wis_a''"
  by (simp add: nul_env_def nul_name_def wisla_def run_eval slug_from_name_def strip_us_def
      is_az09_def underscore_def)

text \<open>
  C9, amended. For every team display name that the driver can send (the client
  encoding has its characters and none of them is NUL) and for which the lookup is
  carried out and finds no row, the resolver returns the slug: the name normalised,
  without its combining marks, lower-cased, with every run of characters outside
  \<^verbatim>\<open>[a-z0-9]\<close> replaced by one underscore and the underscores at both ends trimmed.
  For the name Montreal Canadiens written with U+00E9, given what the character
  database says of its characters, the result is \<^verbatim>\<open>montreal_canadiens\<close>. The
  resolver raises exactly when the driver cannot send the name or the lookup fails;
  a name with NUL that can be encoded raises \<^verbatim>\<open>ValueError\<close>.
\<close>

theorem team_id_fallback_slug:
  "(client_encodes ev nm \<and> 0 \<notin> set nm \<and> select_ok ev nm \<and> select_team ev nm = None \<longrightarrow>
      team_id_from_db_or_slug ev nm = Inr (spec_slug (lib ev) nm)) \<and>
   (client_encodes ev montreal \<and> select_ok ev montreal \<and> select_team ev montreal = None \<and>
    normalize_nfkd (lib ev) montreal = montreal_nfkd \<and>
    (\<forall>c\<in>set montreal_nfkd. (combining (lib ev) c = 0) = (c \<noteq> 769)) \<and>
    str_lower (lib ev) (u ''Montreal Canadiens'') = u ''montreal canadiens'' \<longrightarrow>
      team_id_from_db_or_slug ev montreal = Inr (u ''montreal_canadiens'')) \<and>
   ((\<exists>e. team_id_from_db_or_slug ev nm = Inl e) =
      (\<not> client_encodes ev nm \<or> 0 \<in> set nm \<or> \<not> select_ok ev nm)) \<and>
   (client_encodes ev nm \<and> 0 \<in> set nm \<longrightarrow> team_id_from_db_or_slug ev nm = Inl ValueError)"
proof (intro conjI impI)
  assume "client_encodes ev nm \<and> 0 \<notin> set nm \<and> select_ok ev nm \<and> select_team ev nm = None"
  then show "team_id_from_db_or_slug ev nm = Inr (spec_slug (lib ev) nm)"
    by (simp add: team_id_from_db_or_slug_def slug_from_name_spec_slug)
next
  assume a: "client_encodes ev montreal \<and> select_ok ev montreal \<and>
    select_team ev montreal = None \<and>
    normalize_nfkd (lib ev) montreal = montreal_nfkd \<and>
    (\<forall>c\<in>set montreal_nfkd. (combining (lib ev) c = 0) = (c \<noteq> 769)) \<and>
    str_lower (lib ev) (u ''Montreal Canadiens'') = u ''montreal canadiens''"
  then have "filter (\<lambda>c. combining (lib ev) c = 0) montreal_nfkd = u ''Montreal Canadiens''"
    by (simp add: montreal_nfkd_def u_def)
  with a have "slug_from_name (lib ev) montreal = strip_us (re_sub (u ''montreal canadiens''))"
    by (simp add: slug_from_name_def)
  also have "\<dots> = u ''montreal_canadiens''"
    by (simp add: u_def strip_us_def is_az09_def underscore_def)
  finally have sl: "slug_from_name (lib ev) montreal = u ''montreal_canadiens''" .
  have "0 \<notin> set montreal"
    by (simp add: montreal_def u_def)
  with a sl show "team_id_from_db_or_slug ev montreal = Inr (u ''montreal_canadiens'')"
    by (simp add: team_id_from_db_or_slug_def)
next
  show "(\<exists>e. team_id_from_db_or_slug ev nm = Inl e) =
      (\<not> client_encodes ev nm \<or> 0 \<in> set nm \<or> \<not> select_ok ev nm)"
    by (auto simp: team_id_from_db_or_slug_def split: option.splits if_splits)
next
  assume "client_encodes ev nm \<and> 0 \<in> set nm"
  then show "team_id_from_db_or_slug ev nm = Inl ValueError"
    by (simp add: team_id_from_db_or_slug_def)
qed

theorem team_id_fallback_slug_witness:
  "client_encodes quiet_env montreal \<and> 0 \<notin> set montreal \<and> select_ok quiet_env montreal \<and>
   select_team quiet_env montreal = None \<and>
   normalize_nfkd (lib quiet_env) montreal = montreal_nfkd \<and>
   list_all (\<lambda>c. (combining (lib quiet_env) c = 0) = (c \<noteq> 769)) montreal_nfkd \<and>
   str_lower (lib quiet_env) (u ''Montreal Canadiens'') = u ''montreal canadiens'' \<and>
   spec_slug (lib quiet_env) montreal = u ''montreal_canadiens'' \<and>
   team_id_from_db_or_slug quiet_env montreal = Inr (u ''montreal_canadiens'') \<and>
   client_encodes quiet_env nul_name \<and> 0 \<in> set nul_name \<and>
   team_id_from_db_or_slug quiet_env nul_name = Inl ValueError"
proof -
  have p: "client_encodes quiet_env montreal" "0 \<notin> set montreal" "select_ok quiet_env montreal"
    "client_encodes quiet_env nul_name" "0 \<in> set nul_name"
    by (simp_all add: quiet_env_def montreal_def nul_name_def u_def)
  have s: "select_team quiet_env montreal = None"
    by (simp add: select_team_def quiet_env_def latin_lib_def montreal_def u_def)
  have n: "normalize_nfkd (lib quiet_env) montreal = montreal_nfkd"
    by (simp add: quiet_env_def latin_lib_def montreal_def montreal_nfkd_def u_def)
  have c: "\<forall>c\<in>set montreal_nfkd. (combining (lib quiet_env) c = 0) = (c \<noteq> 769)"
    by (simp add: quiet_env_def latin_lib_def)
  have lw: "str_lower (lib quiet_env) (u ''Montreal Canadiens'') = u ''montreal canadiens''"
    by (simp add: quiet_env_def latin_lib_def u_def)
  from team_id_fallback_slug [of quiet_env montreal] p s n c lw
  have "team_id_from_db_or_slug quiet_env montreal = Inr (spec_slug (lib quiet_env) montreal)"
    and "team_id_from_db_or_slug quiet_env montreal = Inr (u ''montreal_canadiens'')"
    by blast+
  moreover from team_id_fallback_slug [of quiet_env nul_name] p
  have "team_id_from_db_or_slug quiet_env nul_name = Inl ValueError"
    by blast
  ultimately show ?thesis
    using p s n c lw by (simp add: list_all_iff)
qed

text \<open>
  C10. Slug invariant and idempotence. For every input and whatever the string library
  does, the slug consists of lower-case ASCII letters, digits and underscores only,
  neither starts nor ends with an underscore, and has no two underscores in a row. When
  the library leaves strings over that alphabet as they are, as the Unicode character
  database does, the slug of a slug is that slug.
\<close>

theorem slug_well_formed_idempotent:
  "well_formed_slug (slug_from_name lb nm) \<and>
   (slug_stable lb \<longrightarrow>
      slug_from_name lb (slug_from_name lb nm) = slug_from_name lb nm)"
proof -
  have "well_formed_slug (slug_from_name lb nm)"
    by (simp add: slug_from_name_def well_formed_strip_re_sub)
  then show ?thesis by (simp add: slug_fixed)
qed

theorem slug_well_formed_idempotent_witness:
  "slug_stable latin_lib \<and>
   slug_from_name latin_lib (u ''_St. Louis  Blues!'') = u ''st_louis_blues'' \<and>
   well_formed_slug (u ''st_louis_blues'') \<and>
   slug_from_name latin_lib (u ''st_louis_blues'') = u ''st_louis_blues''"
proof -
  have e: "slug_from_name latin_lib (u ''_St. Louis  Blues!'') = u ''st_louis_blues''"
    by (simp add: slug_from_name_def latin_lib_def u_def strip_us_def is_az09_def
        underscore_def)
  from slug_well_formed_idempotent [of latin_lib "u ''_St. Louis  Blues!''"] latin_lib_stable e
  show ?thesis by simp
qed

end
